theory Spec2Isabelle
  imports
    Complex_Main
    "HOL-Library.Char_ord"
    "HOL-Library.List_Lexorder"
    "HOL-Library.Option_ord"
    "HOL-Library.Product_Lexorder"
    "HOL-Library.Multiset"
begin

section \<open>The reservation service of \<^verbatim>\<open>src/main.py\<close>\<close>

text \<open>
  The program is one module: a table \<^verbatim>\<open>reservations\<close> in an SQLite file and six
  request handlers over it. Each handler opens a connection, runs its statements,
  commits and closes, so a handler is modelled as a function from the database before
  the request to the response and the database after it.

  What the model takes from outside the module:
  \<^item> the clock: \<^verbatim>\<open>utcnow().isoformat()\<close> and SQLite's \<^verbatim>\<open>date('now')\<close> are arguments of
    the handlers that read them;
  \<^item> SQLite's built-in \<^verbatim>\<open>date\<close> and \<^verbatim>\<open>datetime\<close> and pydantic's \<^verbatim>\<open>EmailStr\<close> validator
    are function arguments: the theorems hold for every such function. They return
    \<open>None\<close> for SQL \<^verbatim>\<open>NULL\<close> and for a rejected address;
  \<^item> \<^verbatim>\<open>total_price\<close> is a Python float that the module only stores and hands back;
    the records take its type as the parameter \<open>'p\<close>. Where a row is inserted the
    type is \<open>'p py_float\<close>, which tells the float NaN from the other floats.

  Text values are \<open>string\<close>, the texts that have a UTF-8 encoding; SQLite compares
  text byte by byte, a proper prefix being smaller, which is the lexicographic order
  on \<open>char list\<close>. SQL \<^verbatim>\<open>NULL\<close> is smaller
  than every text value when sorting, which is the order on \<open>option\<close>. Integers are
  Python's unbounded \<open>int\<close>, and an SQLite \<^verbatim>\<open>INTEGER\<close> has 64 bits: the driver raises
  \<^verbatim>\<open>OverflowError\<close> when it is to bind an integer outside that range.
  \<^verbatim>\<open>create_reservation\<close> and \<^verbatim>\<open>delete_reservation\<close> have that branch.
  \<^verbatim>\<open>get_reservation\<close> and \<^verbatim>\<open>update_reservation\<close> are modelled for the ids that fit,
  as the id of every stored row does. Requests are served one at a time.
\<close>

subsection \<open>Records\<close>

text \<open>\<^verbatim>\<open>class ReservationCreate(BaseModel)\<close>: the body of a creation request.\<close>

record 'p ReservationCreate =
  guest_name :: string
  guest_email :: string
  guest_phone :: "string option"
  check_in :: string
  check_out :: string
  check_in_time :: "string option"
  check_out_time :: "string option"
  room_type :: string
  room_count :: int
  adults :: int
  children :: int
  total_price :: 'p
  payment_status :: string
  special_requests :: "string option"
  experiences :: "string option"

text \<open>
  \<^verbatim>\<open>class Reservation(ReservationCreate)\<close> adds \<^verbatim>\<open>id\<close> and \<^verbatim>\<open>created_at\<close>. A row of the
  table has the same sixteen columns, so rows and returned objects share this type,
  and \<^verbatim>\<open>Reservation(**dict(row))\<close>, which rebuilds the object from a row column by
  column, is the identity on it: a row holds values that were validated when they
  were written. The field \<^verbatim>\<open>id\<close> is written \<open>id'\<close>.
\<close>

record 'p Reservation = "'p ReservationCreate" +
  id' :: int
  created_at :: string

text \<open>
  The database: the rows of \<^verbatim>\<open>reservations\<close> in the order a table scan visits them
  (ascending rowid), and the counter that \<^verbatim>\<open>AUTOINCREMENT\<close> keeps for the table in
  \<^verbatim>\<open>sqlite_sequence\<close> (0 while the table has never held a row).
\<close>

record 'p database =
  reservations :: "'p Reservation list"
  sqlite_sequence :: int

text \<open>
  A Python float as the driver sees it: NaN, which it binds as \<^verbatim>\<open>NULL\<close>, or any other
  float, the infinities included, which it stores and reads back as it is. The
  model does not look into the other floats; their type is \<open>'p\<close>.
\<close>

datatype 'p py_float = Number 'p | NaN

text \<open>
  The failures a handler can answer with: a request body that pydantic rejects (422),
  \<^verbatim>\<open>HTTPException(status_code=404)\<close>, and the exceptions that escape a handler and
  are answered with 500: the driver's \<^verbatim>\<open>OverflowError\<close> for an integer outside 64
  bits, SQLite's \<^verbatim>\<open>OperationalError\<close> (database or disk is full) when the ids are used
  up, its \<^verbatim>\<open>IntegrityError\<close> for a \<^verbatim>\<open>NULL\<close> in a \<^verbatim>\<open>NOT NULL\<close> column, and
  \<open>InternalError\<close> for the \<^verbatim>\<open>TypeError\<close> of \<^verbatim>\<open>dict(None)\<close>.
\<close>

datatype error =
  ValidationError | NotFound | InternalError | OverflowError | OperationalError | IntegrityError

text \<open>The values of the dictionaries that two handlers return.\<close>

datatype json = JStr string | JInt int

type_synonym 'p response = "error + 'p"

subsection \<open>Helpers\<close>

text \<open>
  Python's \<^verbatim>\<open>x or d\<close> for an \<^verbatim>\<open>Optional[str]\<close> \<open>x\<close>: \<^verbatim>\<open>None\<close> and the empty string
  are falsy.
\<close>

definition py_or :: "string option \<Rightarrow> string \<Rightarrow> string" where
  "py_or x d = (case x of None \<Rightarrow> d | Some s \<Rightarrow> if s = [] then d else s)"

text \<open>\<^verbatim>\<open>x if x is not None else d\<close>.\<close>

definition if_not_None :: "string option \<Rightarrow> string option \<Rightarrow> string option" where
  "if_not_None x d = (case x of None \<Rightarrow> d | Some s \<Rightarrow> Some s)"

text \<open>
  The integers that the driver binds to a statement: those of a signed 64-bit
  \<^verbatim>\<open>INTEGER\<close>. For any other it raises \<^verbatim>\<open>OverflowError\<close> before the statement runs.
\<close>

definition int64 :: "int \<Rightarrow> bool" where
  "int64 n \<longleftrightarrow> - (2 ^ 63) \<le> n \<and> n < 2 ^ 63"

text \<open>\<^verbatim>\<open>SELECT * FROM reservations WHERE id = ?\<close> followed by \<^verbatim>\<open>fetchone()\<close>.\<close>

definition select_by_id :: "int \<Rightarrow> 'p database \<Rightarrow> 'p Reservation option" where
  "select_by_id i db = find (\<lambda>r. id' r = i) (reservations db)"

subsection \<open>\<^verbatim>\<open>health_check\<close>\<close>

definition health_check :: "(string \<times> json) list" where
  "health_check = [(''status'', JStr ''ok'')]"

subsection \<open>\<^verbatim>\<open>init_db\<close>\<close>

text \<open>
  \<^verbatim>\<open>CREATE TABLE IF NOT EXISTS\<close>: a database that has no table yet (\<open>None\<close>) gets the
  empty one, an existing table is kept as it is.
\<close>

definition init_db :: "'p database option \<Rightarrow> 'p database" where
  "init_db file = (case file of
      None \<Rightarrow> \<lparr>reservations = [], sqlite_sequence = 0\<rparr>
    | Some db \<Rightarrow> db)"

subsection \<open>\<^verbatim>\<open>create_reservation\<close>\<close>

text \<open>
  The rowid that \<^verbatim>\<open>INTEGER PRIMARY KEY AUTOINCREMENT\<close> gives to an inserted row: one
  more than the largest rowid in the table (1 for an empty table), and at least one
  more than the counter in \<^verbatim>\<open>sqlite_sequence\<close>.
\<close>

definition next_rowid :: "'p database \<Rightarrow> int" where
  "next_rowid db =
     (let v = (if reservations db = [] then 1
               else Max (set (map id' (reservations db))) + 1)
      in if v < sqlite_sequence db + 1 then sqlite_sequence db + 1 else v)"

text \<open>
  \<^verbatim>\<open>AUTOINCREMENT\<close> has no rowid left to give when the counter, or the largest rowid
  in the table, has reached the largest 64-bit integer; the \<^verbatim>\<open>INSERT\<close> then fails
  with \<^verbatim>\<open>SQLITE_FULL\<close>.
\<close>

definition rowid_exhausted :: "'p database \<Rightarrow> bool" where
  "rowid_exhausted db \<longleftrightarrow>
     2 ^ 63 - 1 \<le> sqlite_sequence db
     \<or> (reservations db \<noteq> [] \<and> 2 ^ 63 - 1 \<le> Max (set (map id' (reservations db))))"

text \<open>
  The handler proper. \<open>now\<close> is \<^verbatim>\<open>datetime.datetime.utcnow().isoformat()\<close>. The
  \<^verbatim>\<open>INSERT\<close> binds the payload's fields, \<^verbatim>\<open>payload.experiences or ""\<close> and \<open>now\<close>;
  the row is then read back by \<^verbatim>\<open>cur.lastrowid\<close>. \<^verbatim>\<open>dict(None)\<close> raises if the read
  finds nothing.

  The \<^verbatim>\<open>INSERT\<close> can fail, in this order: the driver binds the three integers of the
  payload and raises \<^verbatim>\<open>OverflowError\<close> for one outside 64 bits; SQLite finds no
  rowid left; the NaN that was bound as \<^verbatim>\<open>NULL\<close> violates \<^verbatim>\<open>total_price REAL NOT NULL\<close>.
  Each of them escapes the handler before the commit, and nothing is stored.
\<close>

definition create_reservation ::
  "string \<Rightarrow> 'p py_float ReservationCreate \<Rightarrow> 'p py_float database
     \<Rightarrow> 'p py_float Reservation response \<times> 'p py_float database"
where
  "create_reservation now payload db =
     (if \<not> (int64 (room_count payload) \<and> int64 (adults payload) \<and> int64 (children payload))
      then (Inl OverflowError, db)
      else if rowid_exhausted db then (Inl OperationalError, db)
      else if total_price payload = NaN then (Inl IntegrityError, db)
      else
      let new_id = next_rowid db;
          row = \<lparr>guest_name = guest_name payload,
                 guest_email = guest_email payload,
                 guest_phone = guest_phone payload,
                 check_in = check_in payload,
                 check_out = check_out payload,
                 check_in_time = check_in_time payload,
                 check_out_time = check_out_time payload,
                 room_type = room_type payload,
                 room_count = room_count payload,
                 adults = adults payload,
                 children = children payload,
                 total_price = total_price payload,
                 payment_status = payment_status payload,
                 special_requests = special_requests payload,
                 experiences = Some (py_or (experiences payload) ''''),
                 id' = new_id,
                 created_at = now\<rparr>;
          db' = \<lparr>reservations = reservations db @ [row], sqlite_sequence = new_id\<rparr>
      in case select_by_id new_id db' of
           None \<Rightarrow> (Inl InternalError, db')
         | Some r \<Rightarrow> (Inr r, db'))"

text \<open>
  The route \<^verbatim>\<open>POST /api/public/reservations\<close>. The framework builds the
  \<^verbatim>\<open>ReservationCreate\<close> from the request body before it calls the handler;
  \<^verbatim>\<open>guest_email: EmailStr\<close> runs the validator, which rejects the body or yields the
  address in normal form. The other fields of the body are taken as well-typed.
\<close>

definition post_reservations ::
  "(string \<Rightarrow> string option) \<Rightarrow> string \<Rightarrow> 'p py_float ReservationCreate
     \<Rightarrow> 'p py_float database \<Rightarrow> 'p py_float Reservation response \<times> 'p py_float database"
where
  "post_reservations EmailStr now body db =
     (case EmailStr (guest_email body) of
        None \<Rightarrow> (Inl ValidationError, db)
      | Some e \<Rightarrow> create_reservation now (body\<lparr>guest_email := e\<rparr>) db)"

subsection \<open>\<^verbatim>\<open>list_reservations\<close>\<close>

text \<open>
  \<^verbatim>\<open>ORDER BY key DESC\<close>: rows with a larger key first. SQL leaves the order of rows
  with equal keys open; SQLite returns them in scan order, which this insertion sort
  does too.
\<close>

fun insert_desc :: "('a \<Rightarrow> 'k::linorder) \<Rightarrow> 'a \<Rightarrow> 'a list \<Rightarrow> 'a list" where
  "insert_desc key x [] = [x]"
| "insert_desc key x (y # ys) =
     (if key y \<le> key x then x # y # ys else y # insert_desc key x ys)"

fun order_by_desc :: "('a \<Rightarrow> 'k::linorder) \<Rightarrow> 'a list \<Rightarrow> 'a list" where
  "order_by_desc key [] = []"
| "order_by_desc key (x # xs) = insert_desc key x (order_by_desc key xs)"

text \<open>
  \<^verbatim>\<open>SELECT * FROM reservations ORDER BY datetime(created_at) DESC\<close>; \<open>datetime\<close> is
  SQLite's function of that name.
\<close>

definition list_reservations ::
  "(string \<Rightarrow> string option) \<Rightarrow> 'p database \<Rightarrow> 'p Reservation list response \<times> 'p database"
where
  "list_reservations datetime db =
     (Inr (order_by_desc (\<lambda>r. datetime (created_at r)) (reservations db)), db)"

subsection \<open>\<^verbatim>\<open>get_reservation\<close>\<close>

text \<open>
  For a \<^verbatim>\<open>reservation_id\<close> that fits 64 bits. The properties below call the handler
  with the id of a row that is in the table.
\<close>

definition get_reservation ::
  "int \<Rightarrow> 'p database \<Rightarrow> 'p Reservation response \<times> 'p database"
where
  "get_reservation reservation_id db =
     (case select_by_id reservation_id db of
        None \<Rightarrow> (Inl NotFound, db)
      | Some row \<Rightarrow> (Inr row, db))"

subsection \<open>\<^verbatim>\<open>update_reservation\<close>\<close>

text \<open>
  The three optional query parameters default to \<^verbatim>\<open>None\<close>. The \<^verbatim>\<open>UPDATE\<close> writes
  the three columns of every row \<^verbatim>\<open>WHERE id = ?\<close>; the row is then read back. For a
  \<^verbatim>\<open>reservation_id\<close> that fits 64 bits; for any other the code raises in the first
  \<^verbatim>\<open>cur.execute\<close> and changes nothing, as the model changes nothing for an id it
  does not find.
\<close>

definition update_reservation ::
  "int \<Rightarrow> string option \<Rightarrow> string option \<Rightarrow> string option \<Rightarrow> 'p database
     \<Rightarrow> 'p Reservation response \<times> 'p database"
where
  "update_reservation reservation_id payment_status_arg special_requests_arg experiences_arg db =
     (case select_by_id reservation_id db of
        None \<Rightarrow> (Inl NotFound, db)
      | Some current \<Rightarrow>
          (let new_payment_status = py_or payment_status_arg (payment_status current);
               new_special_requests = if_not_None special_requests_arg (special_requests current);
               new_experiences = if_not_None experiences_arg (experiences current);
               db' = db\<lparr>reservations :=
                        map (\<lambda>r. if id' r = reservation_id
                                 then r\<lparr>payment_status := new_payment_status,
                                        special_requests := new_special_requests,
                                        experiences := new_experiences\<rparr>
                                 else r)
                            (reservations db)\<rparr>
           in case select_by_id reservation_id db' of
                None \<Rightarrow> (Inl InternalError, db')
              | Some updated_row \<Rightarrow> (Inr updated_row, db')))"

subsection \<open>\<^verbatim>\<open>delete_reservation\<close>\<close>

text \<open>
  \<^verbatim>\<open>DELETE FROM reservations WHERE id = ?\<close>; \<^verbatim>\<open>cur.rowcount\<close> is the number of rows the
  statement removed. The 404 is raised after the commit. The path parameter is a
  Python \<^verbatim>\<open>int\<close> of any size: for one outside 64 bits the driver raises
  \<^verbatim>\<open>OverflowError\<close> in \<^verbatim>\<open>cur.execute\<close>, before the statement runs.
\<close>

definition delete_reservation ::
  "int \<Rightarrow> 'p database \<Rightarrow> (string \<times> json) list response \<times> 'p database"
where
  "delete_reservation reservation_id db =
     (if \<not> int64 reservation_id then (Inl OverflowError, db)
      else
      let db' = db\<lparr>reservations := filter (\<lambda>r. id' r \<noteq> reservation_id) (reservations db)\<rparr>;
          deleted = length (filter (\<lambda>r. id' r = reservation_id) (reservations db))
      in if deleted = 0 then (Inl NotFound, db')
         else (Inr [(''status'', JStr ''ok''), (''deleted_id'', JInt reservation_id)], db'))"

subsection \<open>\<^verbatim>\<open>cleanup_expired_reservations\<close>\<close>

text \<open>
  The condition \<^verbatim>\<open>date(substr(check_out, 1, 10)) < date('now')\<close> on one row. \<open>date\<close>
  is SQLite's function of that name and \<open>today\<close> the value of \<^verbatim>\<open>date('now')\<close>. Both
  sides are text and are compared as text; a \<^verbatim>\<open>NULL\<close> on the left makes the
  comparison \<^verbatim>\<open>NULL\<close>, and the row is not selected.
\<close>

definition expired :: "(string \<Rightarrow> string option) \<Rightarrow> string \<Rightarrow> 'p Reservation \<Rightarrow> bool" where
  "expired date today r =
     (case date (take 10 (check_out r)) of
        None \<Rightarrow> False
      | Some d \<Rightarrow> d < today)"

text \<open>
  The handler runs two statements, a \<^verbatim>\<open>SELECT COUNT(*)\<close> and the \<^verbatim>\<open>DELETE\<close>, and
  each evaluates \<^verbatim>\<open>date('now')\<close> for itself: \<open>today_count\<close> and \<open>today_delete\<close>.
  The count query always yields its one row, so \<^verbatim>\<open>to_delete\<close> is the count;
  \<^verbatim>\<open>deleted\<close> is \<^verbatim>\<open>cur.rowcount\<close> of the \<^verbatim>\<open>DELETE\<close>.
\<close>

definition cleanup_expired_reservations ::
  "(string \<Rightarrow> string option) \<Rightarrow> string \<Rightarrow> string \<Rightarrow> 'p database
     \<Rightarrow> (string \<times> json) list response \<times> 'p database"
where
  "cleanup_expired_reservations date today_count today_delete db =
     (let to_delete = length (filter (expired date today_count) (reservations db));
          db' = db\<lparr>reservations :=
                   filter (\<lambda>r. \<not> expired date today_delete r) (reservations db)\<rparr>;
          deleted = length (filter (expired date today_delete) (reservations db))
      in (Inr [(''status'', JStr ''ok''),
               (''to_delete'', JInt (int to_delete)),
               (''deleted_count'', JInt (int deleted))], db'))"

section \<open>Vocabulary of the properties\<close>

text \<open>
  Two versions of a row agree on every column that \<^verbatim>\<open>update_reservation\<close> has no
  assignment for: all columns but \<^verbatim>\<open>payment_status\<close>, \<^verbatim>\<open>special_requests\<close> and
  \<^verbatim>\<open>experiences\<close>.
\<close>

definition unchanged_outside_update :: "'p Reservation \<Rightarrow> 'p Reservation \<Rightarrow> bool" where
  "unchanged_outside_update old new \<longleftrightarrow>
     id' new = id' old \<and> created_at new = created_at old \<and>
     guest_name new = guest_name old \<and> guest_email new = guest_email old \<and>
     guest_phone new = guest_phone old \<and>
     check_in new = check_in old \<and> check_out new = check_out old \<and>
     check_in_time new = check_in_time old \<and> check_out_time new = check_out_time old \<and>
     room_type new = room_type old \<and> room_count new = room_count old \<and>
     adults new = adults old \<and> children new = children old \<and>
     total_price new = total_price old"

text \<open>
  The payload and the database are such that the \<^verbatim>\<open>INSERT\<close> of
  \<^verbatim>\<open>create_reservation\<close> goes through.
\<close>

definition insertable :: "'p py_float ReservationCreate \<Rightarrow> 'p py_float database \<Rightarrow> bool" where
  "insertable payload db \<longleftrightarrow>
     int64 (room_count payload) \<and> int64 (adults payload) \<and> int64 (children payload)
     \<and> \<not> rowid_exhausted db \<and> total_price payload \<noteq> NaN"

section \<open>Concrete data for the closed examples\<close>

text \<open>
  Two bookings, made within the same second: the bodies that were posted, and the
  rows that \<^verbatim>\<open>create_reservation\<close> stores for them in an empty database at
  10:30:45.1 and 10:30:45.9 on 15 January 2024 (lemma \<open>two_guests_created\<close> below).
\<close>

definition payload_ada :: "real py_float ReservationCreate" where
  "payload_ada =
     \<lparr>guest_name = ''Ada Lovelace'', guest_email = ''ada@example.com'',
      guest_phone = None, check_in = ''2024-01-10'', check_out = ''2024-01-14'',
      check_in_time = None, check_out_time = None, room_type = ''suite'',
      room_count = 1, adults = 2, children = 0, total_price = Number 450,
      payment_status = ''pending'', special_requests = None, experiences = None\<rparr>"

definition payload_bob :: "real py_float ReservationCreate" where
  "payload_bob =
     \<lparr>guest_name = ''Bob Kahn'', guest_email = ''bob@example.com'',
      guest_phone = Some ''555 0100'', check_in = ''2024-01-12'',
      check_out = ''2024-01-16 11:00'',
      check_in_time = Some ''15:00'', check_out_time = Some ''11:00'',
      room_type = ''double'', room_count = 1, adults = 1, children = 1,
      total_price = Number 300, payment_status = ''paid'',
      special_requests = Some ''late arrival'', experiences = Some ''boat tour''\<rparr>"

definition row_ada :: "real py_float Reservation" where
  "row_ada =
     \<lparr>guest_name = ''Ada Lovelace'', guest_email = ''ada@example.com'',
      guest_phone = None, check_in = ''2024-01-10'', check_out = ''2024-01-14'',
      check_in_time = None, check_out_time = None, room_type = ''suite'',
      room_count = 1, adults = 2, children = 0, total_price = Number 450,
      payment_status = ''pending'', special_requests = None, experiences = Some [],
      id' = 1, created_at = ''2024-01-15T10:30:45.100000''\<rparr>"

definition row_bob :: "real py_float Reservation" where
  "row_bob =
     \<lparr>guest_name = ''Bob Kahn'', guest_email = ''bob@example.com'',
      guest_phone = Some ''555 0100'', check_in = ''2024-01-12'',
      check_out = ''2024-01-16 11:00'',
      check_in_time = Some ''15:00'', check_out_time = Some ''11:00'',
      room_type = ''double'', room_count = 1, adults = 1, children = 1,
      total_price = Number 300, payment_status = ''paid'',
      special_requests = Some ''late arrival'', experiences = Some ''boat tour'',
      id' = 2, created_at = ''2024-01-15T10:30:45.900000''\<rparr>"

definition no_guests :: "real py_float database" where
  "no_guests = init_db None"

definition one_guest :: "real py_float database" where
  "one_guest = \<lparr>reservations = [row_ada], sqlite_sequence = 1\<rparr>"

definition two_guests :: "real py_float database" where
  "two_guests = \<lparr>reservations = [row_ada, row_bob], sqlite_sequence = 2\<rparr>"

text \<open>
  A stand-in for the address validator in the closed examples: it accepts a text
  without blanks that has exactly one \<open>@\<close> with something on either side, and returns
  it unchanged. pydantic's validator is stricter and rewrites the address to its
  normal form; on the addresses used below the two agree.
\<close>

definition example_EmailStr :: "string \<Rightarrow> string option" where
  "example_EmailStr s =
     (let local = takeWhile (\<lambda>c. c \<noteq> CHR ''@'') s;
          rest = dropWhile (\<lambda>c. c \<noteq> CHR ''@'') s
      in if local \<noteq> [] \<and> 1 < length rest \<and> CHR ''@'' \<notin> set (tl rest) \<and> CHR '' '' \<notin> set s
         then Some s else None)"



text \<open>
  Stand-ins for SQLite's \<^verbatim>\<open>date\<close> and \<^verbatim>\<open>datetime\<close> in the closed examples. On a text
  \<^verbatim>\<open>YYYY-MM-DD\<close> with a month from 01 to 12 and a day from 01 to 28, \<^verbatim>\<open>date\<close> returns
  the text itself; on such a date followed by \<^verbatim>\<open>THH:MM:SS\<close> and, optionally, a point
  and digits (what \<^verbatim>\<open>isoformat()\<close> writes), \<^verbatim>\<open>datetime\<close> returns
  \<^verbatim>\<open>YYYY-MM-DD HH:MM:SS\<close>, the fraction of the second cut off. The stand-ins answer
  \<^verbatim>\<open>NULL\<close> on every other text, where SQLite's functions go on to further formats; the
  examples stay inside the part described.
\<close>

definition digit :: "char \<Rightarrow> bool" where
  "digit c \<longleftrightarrow> CHR ''0'' \<le> c \<and> c \<le> CHR ''9''"

definition two_digits :: "string \<Rightarrow> nat option" where
  "two_digits s =
     (case s of
        [a, b] \<Rightarrow> if digit a \<and> digit b
                  then Some (10 * (of_char a - 48) + (of_char b - 48)) else None
      | _ \<Rightarrow> None)"

definition in_range :: "nat \<Rightarrow> nat \<Rightarrow> nat option \<Rightarrow> bool" where
  "in_range lo hi v = (case v of None \<Rightarrow> False | Some n \<Rightarrow> lo \<le> n \<and> n \<le> hi)"

definition iso_date :: "string \<Rightarrow> string option" where
  "iso_date s =
     (if length s = 10 \<and> list_all digit (take 4 s)
         \<and> s ! 4 = CHR ''-'' \<and> in_range 1 12 (two_digits (take 2 (drop 5 s)))
         \<and> s ! 7 = CHR ''-'' \<and> in_range 1 28 (two_digits (drop 8 s))
      then Some s else None)"

definition iso_datetime :: "string \<Rightarrow> string option" where
  "iso_datetime s =
     (if 19 \<le> length s \<and> iso_date (take 10 s) \<noteq> None
         \<and> s ! 10 = CHR ''T'' \<and> in_range 0 23 (two_digits (take 2 (drop 11 s)))
         \<and> s ! 13 = CHR '':'' \<and> in_range 0 59 (two_digits (take 2 (drop 14 s)))
         \<and> s ! 16 = CHR '':'' \<and> in_range 0 59 (two_digits (take 2 (drop 17 s)))
         \<and> (length s = 19
              \<or> (20 < length s \<and> s ! 19 = CHR ''.'' \<and> list_all digit (drop 20 s)))
      then Some (take 10 s @ '' '' @ take 8 (drop 11 s)) else None)"

text \<open>
  The calendar date that a text \<^verbatim>\<open>YYYY-MM-DD\<close> denotes: year, month and day as
  numbers.
\<close>

definition digit_value :: "char \<Rightarrow> nat" where
  "digit_value c = of_char c - 48"

fun number :: "string \<Rightarrow> nat" where
  "number [] = 0"
| "number (c # cs) = digit_value c * 10 ^ length cs + number cs"

definition ymd :: "string \<Rightarrow> nat \<times> nat \<times> nat" where
  "ymd s = (number (take 4 s), number (take 2 (drop 5 s)), number (drop 8 s))"

section \<open>Requests served one after another\<close>

text \<open>
  The six routes of the application. A request carries what the handler reads from
  outside the database: the body or the parameters, and the clock readings.
\<close>

datatype 'p request =
    Create "'p py_float ReservationCreate" string
  | ListAll
  | GetById int
  | PartialUpdate int "string option" "string option" "string option"
  | Delete int
  | CleanupExpired string string

text \<open>
  Serving one request: the id of the row it created, if it created one, and the
  database it leaves.
\<close>

fun serve ::
  "(string \<Rightarrow> string option) \<Rightarrow> (string \<Rightarrow> string option) \<Rightarrow> (string \<Rightarrow> string option)
     \<Rightarrow> 'p request \<Rightarrow> 'p py_float database \<Rightarrow> int option \<times> 'p py_float database"
where
  "serve EmailStr date datetime (Create body now) db =
     (case post_reservations EmailStr now body db of
        (Inr r, db') \<Rightarrow> (Some (id' r), db')
      | (Inl e, db') \<Rightarrow> (None, db'))"
| "serve EmailStr date datetime ListAll db =
     (None, snd (list_reservations datetime db))"
| "serve EmailStr date datetime (GetById i) db =
     (None, snd (get_reservation i db))"
| "serve EmailStr date datetime (PartialUpdate i ps sr ex) db =
     (None, snd (update_reservation i ps sr ex db))"
| "serve EmailStr date datetime (Delete i) db =
     (None, snd (delete_reservation i db))"
| "serve EmailStr date datetime (CleanupExpired today_count today_delete) db =
     (None, snd (cleanup_expired_reservations date today_count today_delete db))"

text \<open>The ids given to new rows while a list of requests is served, in that order.\<close>

fun assigned_ids ::
  "(string \<Rightarrow> string option) \<Rightarrow> (string \<Rightarrow> string option) \<Rightarrow> (string \<Rightarrow> string option)
     \<Rightarrow> 'p request list \<Rightarrow> 'p py_float database \<Rightarrow> int list"
where
  "assigned_ids EmailStr date datetime [] db = []"
| "assigned_ids EmailStr date datetime (q # qs) db =
     (case serve EmailStr date datetime q db of
        (None, db') \<Rightarrow> assigned_ids EmailStr date datetime qs db'
      | (Some i, db') \<Rightarrow> i # assigned_ids EmailStr date datetime qs db')"

text \<open>The database after a list of requests has been served.\<close>

fun serve_all ::
  "(string \<Rightarrow> string option) \<Rightarrow> (string \<Rightarrow> string option) \<Rightarrow> (string \<Rightarrow> string option)
     \<Rightarrow> 'p request list \<Rightarrow> 'p py_float database \<Rightarrow> 'p py_float database"
where
  "serve_all EmailStr date datetime [] db = db"
| "serve_all EmailStr date datetime (q # qs) db =
     serve_all EmailStr date datetime qs (snd (serve EmailStr date datetime q db))"

text \<open>The rows of the table are in strictly ascending order of their ids.\<close>

definition rowid_order :: "'p database \<Rightarrow> bool" where
  "rowid_order db \<longleftrightarrow> sorted_wrt (\<lambda>a b. id' a < id' b) (reservations db)"

section \<open>Properties\<close>

subsection \<open>Looking a row up\<close>

lemma find_SomeD: "find P xs = Some x \<Longrightarrow> P x \<and> x \<in> set xs"
  by (induction xs) (auto split: if_splits)

lemma find_map_update:
  assumes "\<And>r. k (f r) = k r"
  shows "find (\<lambda>r. k r = i) (map (\<lambda>r. if k r = i then f r else r) xs)
       = map_option f (find (\<lambda>r. k r = i) xs)"
  using assms by (induction xs) auto

lemma find_append_fresh:
  assumes "\<And>r. r \<in> set xs \<Longrightarrow> \<not> P r" "P x"
  shows "find P (xs @ [x]) = Some x"
  using assms by (induction xs) auto

lemma unique_by_key:
  assumes "distinct (map k xs)" "find (\<lambda>r. k r = i) xs = Some cur" "r \<in> set xs" "k r = i"
  shows "r = cur"
proof -
  from assms(2) have "k cur = i" "cur \<in> set xs" by (auto dest: find_SomeD)
  with assms(1,3,4) show ?thesis
    by (simp add: distinct_map inj_on_def)
qed

lemma select_by_id_SomeD:
  "select_by_id i db = Some r \<Longrightarrow> id' r = i \<and> r \<in> set (reservations db)"
  unfolding select_by_id_def by (drule find_SomeD) simp

lemma select_by_id_None_iff:
  "select_by_id i db = None \<longleftrightarrow> i \<notin> id' ` set (reservations db)"
  unfolding select_by_id_def by (auto simp: find_None_iff)

lemma py_or_None: "py_or None d = d"
  by (simp add: py_or_def)

lemma if_not_None_None: "if_not_None None d = d"
  by (simp add: if_not_None_def)

subsection \<open>The closed examples compute\<close>

lemma select_ada: "select_by_id 1 two_guests = Some row_ada"
  by (simp add: select_by_id_def two_guests_def row_ada_def)

lemma select_bob: "select_by_id 2 two_guests = Some row_bob"
  by (simp add: select_by_id_def two_guests_def row_ada_def row_bob_def)

lemma two_guests_ids: "map id' (reservations two_guests) = [1, 2]"
  by (simp add: two_guests_def row_ada_def row_bob_def)

lemma create_ada:
  "create_reservation ''2024-01-15T10:30:45.100000'' payload_ada no_guests = (Inr row_ada, one_guest)"
  by (simp add: create_reservation_def no_guests_def init_db_def next_rowid_def select_by_id_def
      payload_ada_def row_ada_def one_guest_def py_or_def Let_def int64_def rowid_exhausted_def)

lemma create_bob:
  "create_reservation ''2024-01-15T10:30:45.900000'' payload_bob one_guest = (Inr row_bob, two_guests)"
  by (simp add: create_reservation_def next_rowid_def select_by_id_def one_guest_def
      payload_bob_def row_ada_def row_bob_def two_guests_def py_or_def Let_def int64_def
      rowid_exhausted_def)

lemma two_guests_created:
  "snd (create_reservation ''2024-01-15T10:30:45.900000'' payload_bob
         (snd (create_reservation ''2024-01-15T10:30:45.100000'' payload_ada (init_db None))))
   = two_guests"
  using create_ada create_bob by (simp add: no_guests_def)

subsection \<open>\<^verbatim>\<open>update_reservation\<close>\<close>

text \<open>What the handler returns and stores once the first \<^verbatim>\<open>SELECT\<close> has found a row.\<close>

lemma update_reservation_found:
  assumes "select_by_id i db = Some cur"
  shows "update_reservation i ps sr ex db =
     (Inr (cur\<lparr>payment_status := py_or ps (payment_status cur),
               special_requests := if_not_None sr (special_requests cur),
               experiences := if_not_None ex (experiences cur)\<rparr>),
      db\<lparr>reservations :=
            map (\<lambda>r. if id' r = i
                     then r\<lparr>payment_status := py_or ps (payment_status cur),
                            special_requests := if_not_None sr (special_requests cur),
                            experiences := if_not_None ex (experiences cur)\<rparr>
                     else r)
                (reservations db)\<rparr>)"
proof -
  let ?f = "\<lambda>r::'a Reservation. r\<lparr>payment_status := py_or ps (payment_status cur),
                            special_requests := if_not_None sr (special_requests cur),
                            experiences := if_not_None ex (experiences cur)\<rparr>"
  have "find (\<lambda>r. id' r = i) (map (\<lambda>r. if id' r = i then ?f r else r) (reservations db))
      = map_option ?f (find (\<lambda>r. id' r = i) (reservations db))"
    by (rule find_map_update) simp
  with assms show ?thesis
    by (simp add: update_reservation_def select_by_id_def Let_def)
qed

text \<open>
  C1. For an id that the table holds, \<^verbatim>\<open>update_reservation\<close> succeeds, and the row it
  returns is the row then stored under that id. Its \<^verbatim>\<open>payment_status\<close> is the supplied
  value if one was supplied and is not empty, and the stored one otherwise (so a
  supplied empty string changes nothing). Its \<^verbatim>\<open>special_requests\<close> and \<^verbatim>\<open>experiences\<close>
  are the supplied value whenever one was supplied, the empty string included, and
  the stored one if none was supplied.
\<close>

theorem update_reservation_replaces_fields:
  assumes "select_by_id i db = Some cur"
  shows "\<exists>r db'. update_reservation i ps sr ex db = (Inr r, db')
           \<and> select_by_id i db' = Some r
           \<and> payment_status r =
               (case ps of None \<Rightarrow> payment_status cur
                | Some s \<Rightarrow> if s = '''' then payment_status cur else s)
           \<and> special_requests r =
               (case sr of None \<Rightarrow> special_requests cur | Some s \<Rightarrow> Some s)
           \<and> experiences r =
               (case ex of None \<Rightarrow> experiences cur | Some s \<Rightarrow> Some s)"
proof -
  let ?f = "\<lambda>r::'a Reservation. r\<lparr>payment_status := py_or ps (payment_status cur),
                            special_requests := if_not_None sr (special_requests cur),
                            experiences := if_not_None ex (experiences cur)\<rparr>"
  have "find (\<lambda>r. id' r = i) (map (\<lambda>r. if id' r = i then ?f r else r) (reservations db))
      = map_option ?f (find (\<lambda>r. id' r = i) (reservations db))"
    by (rule find_map_update) simp
  with assms show ?thesis
    by (simp add: update_reservation_found select_by_id_def py_or_def if_not_None_def
        split: option.splits)
qed

theorem update_reservation_replaces_fields_witness:
  "select_by_id 1 two_guests = Some row_ada
   \<and> (\<exists>r db'. update_reservation 1 (Some '''') (Some '''') None two_guests = (Inr r, db')
         \<and> select_by_id 1 db' = Some r
         \<and> payment_status r = ''pending''
         \<and> special_requests r = Some ''''
         \<and> experiences r = Some '''')"
proof -
  have h: "select_by_id 1 two_guests = Some row_ada" by (rule select_ada)
  have "payment_status row_ada = ''pending''" "experiences row_ada = Some ''''"
    by (simp_all add: row_ada_def)
  with update_reservation_replaces_fields [OF h, of "Some ''''" "Some ''''" None] h
  show ?thesis by simp
qed

text \<open>
  C10. In a table whose ids are pairwise distinct, as the primary key has it (lemma
  \<open>reachable_ids_distinct\<close> below), \<^verbatim>\<open>update_reservation\<close> with none of the three
  parameters supplied returns the row stored under an existing id and leaves the
  database as it was.
\<close>

theorem update_reservation_nothing_supplied:
  assumes "distinct (map id' (reservations db))"
      and "select_by_id i db = Some cur"
    shows "update_reservation i None None None db = (Inr cur, db)"
proof -
  have same: "r = cur" if "r \<in> set (reservations db)" "id' r = i" for r
    using unique_by_key [of id' "reservations db" i cur r] assms that
    by (simp add: select_by_id_def)
  have "map (\<lambda>r. if id' r = i
                 then r\<lparr>payment_status := payment_status cur,
                        special_requests := special_requests cur,
                        experiences := experiences cur\<rparr>
                 else r) (reservations db) = reservations db"
  proof (rule map_idI)
    fix r assume "r \<in> set (reservations db)"
    then show "(if id' r = i
                 then r\<lparr>payment_status := payment_status cur,
                        special_requests := special_requests cur,
                        experiences := experiences cur\<rparr>
                 else r) = r"
      using same [of r] by simp
  qed
  then show ?thesis
    unfolding update_reservation_found [OF assms(2)] py_or_None if_not_None_None
    by simp
qed

theorem update_reservation_nothing_supplied_witness:
  "distinct (map id' (reservations two_guests))
   \<and> select_by_id 2 two_guests = Some row_bob
   \<and> update_reservation 2 None None None two_guests = (Inr row_bob, two_guests)"
proof -
  have d: "distinct (map id' (reservations two_guests))"
    by (simp add: two_guests_ids)
  from update_reservation_nothing_supplied [OF d select_bob] d select_bob
  show ?thesis by simp
qed

text \<open>
  C4. Whatever the id and the parameters, and whether the request succeeds or not,
  \<^verbatim>\<open>update_reservation\<close> keeps the number and the order of the rows and the
  \<^verbatim>\<open>AUTOINCREMENT\<close> counter; a row with another id is the same row afterwards, and a
  row with the requested id keeps all its columns other than \<^verbatim>\<open>payment_status\<close>,
  \<^verbatim>\<open>special_requests\<close> and \<^verbatim>\<open>experiences\<close>, \<^verbatim>\<open>id\<close> and \<^verbatim>\<open>created_at\<close> among them.
\<close>

theorem update_reservation_frame:
  assumes "update_reservation i ps sr ex db = (res, db')"
  shows "sqlite_sequence db' = sqlite_sequence db
       \<and> length (reservations db') = length (reservations db)
       \<and> (\<forall>k < length (reservations db).
            unchanged_outside_update (reservations db ! k) (reservations db' ! k)
          \<and> (id' (reservations db ! k) \<noteq> i \<longrightarrow> reservations db' ! k = reservations db ! k))"
proof (cases "select_by_id i db")
  case None
  with assms have "db' = db" by (simp add: update_reservation_def)
  then show ?thesis by (simp add: unchanged_outside_update_def)
next
  case (Some cur)
  from assms show ?thesis
    unfolding update_reservation_found [OF Some]
    by (auto simp: unchanged_outside_update_def)
qed

theorem update_reservation_frame_witness:
  "update_reservation 1 (Some ''paid'') None (Some ''spa'') two_guests
     = (Inr (row_ada\<lparr>payment_status := ''paid'', experiences := Some ''spa''\<rparr>),
        two_guests\<lparr>reservations :=
          [row_ada\<lparr>payment_status := ''paid'', experiences := Some ''spa''\<rparr>, row_bob]\<rparr>)
   \<and> (0::nat) < length (reservations two_guests)
   \<and> unchanged_outside_update row_ada
        (row_ada\<lparr>payment_status := ''paid'', experiences := Some ''spa''\<rparr>)
   \<and> (1::nat) < length (reservations two_guests)
   \<and> id' (reservations two_guests ! 1) \<noteq> 1"
proof -
  have h: "update_reservation 1 (Some ''paid'') None (Some ''spa'') two_guests
     = (Inr (row_ada\<lparr>payment_status := ''paid'', experiences := Some ''spa''\<rparr>),
        two_guests\<lparr>reservations :=
          [row_ada\<lparr>payment_status := ''paid'', experiences := Some ''spa''\<rparr>, row_bob]\<rparr>)"
    unfolding update_reservation_found [OF select_ada]
    by (simp add: two_guests_def row_ada_def row_bob_def py_or_def if_not_None_def)
  have len: "length (reservations two_guests) = 2" by (simp add: two_guests_def)
  have "0 < length (reservations two_guests)" using len by simp
  with update_reservation_frame [OF h]
  have "unchanged_outside_update (reservations two_guests ! 0)
          (reservations (two_guests\<lparr>reservations :=
             [row_ada\<lparr>payment_status := ''paid'', experiences := Some ''spa''\<rparr>, row_bob]\<rparr>) ! 0)"
    by blast
  then show ?thesis
    using h len by (simp add: two_guests_def row_bob_def)
qed

subsection \<open>\<^verbatim>\<open>delete_reservation\<close>\<close>

text \<open>
  C5, as the code has it. \<^verbatim>\<open>delete_reservation\<close> answers \<^verbatim>\<open>NotFound\<close> exactly when the
  id fits 64 bits and no row has it. For an id that does not fit it answers with
  the \<^verbatim>\<open>OverflowError\<close> of the driver. In both cases the database after the request
  is the database before it. When the id fits and a row has it, the answer is the
  confirmation with \<^verbatim>\<open>deleted_id\<close> set to the id, the rows with that id are gone and
  all others are kept, in their order.
\<close>

theorem delete_reservation_outcomes:
  "(fst (delete_reservation i db) = Inl NotFound
      \<longleftrightarrow> int64 i \<and> i \<notin> id' ` set (reservations db))
   \<and> (\<not> int64 i \<longrightarrow> delete_reservation i db = (Inl OverflowError, db))
   \<and> (int64 i \<and> i \<notin> id' ` set (reservations db) \<longrightarrow>
        delete_reservation i db = (Inl NotFound, db))
   \<and> (int64 i \<and> i \<in> id' ` set (reservations db) \<longrightarrow>
        (\<exists>db'. delete_reservation i db
                 = (Inr [(''status'', JStr ''ok''), (''deleted_id'', JInt i)], db')
             \<and> reservations db' = filter (\<lambda>r. id' r \<noteq> i) (reservations db)
             \<and> i \<notin> id' ` set (reservations db')
             \<and> sqlite_sequence db' = sqlite_sequence db))"
proof -
  have none: "length (filter (\<lambda>r. id' r = i) (reservations db)) = 0
              \<longleftrightarrow> i \<notin> id' ` set (reservations db)"
    by (auto simp: filter_empty_conv)
  have keep: "filter (\<lambda>r. id' r \<noteq> i) (reservations db) = reservations db"
    if "i \<notin> id' ` set (reservations db)"
    using that by (auto simp: filter_id_conv)
  have "fst (delete_reservation i db) = Inl NotFound
          \<longleftrightarrow> int64 i \<and> i \<notin> id' ` set (reservations db)"
    using none by (simp add: delete_reservation_def Let_def)
  moreover have "delete_reservation i db = (Inl OverflowError, db)" if "\<not> int64 i"
    using that by (simp add: delete_reservation_def)
  moreover have "delete_reservation i db = (Inl NotFound, db)"
    if "int64 i" "i \<notin> id' ` set (reservations db)"
    using that none keep by (simp add: delete_reservation_def Let_def)
  moreover have "\<exists>db'. delete_reservation i db
                 = (Inr [(''status'', JStr ''ok''), (''deleted_id'', JInt i)], db')
             \<and> reservations db' = filter (\<lambda>r. id' r \<noteq> i) (reservations db)
             \<and> i \<notin> id' ` set (reservations db')
             \<and> sqlite_sequence db' = sqlite_sequence db"
    if "int64 i" "i \<in> id' ` set (reservations db)"
    using that none by (auto simp: delete_reservation_def Let_def)
  ultimately show ?thesis by blast
qed

theorem delete_reservation_outcomes_witness:
  "int64 7 \<and> 7 \<notin> id' ` set (reservations two_guests)
   \<and> delete_reservation 7 two_guests = (Inl NotFound, two_guests)
   \<and> int64 2 \<and> 2 \<in> id' ` set (reservations two_guests)
   \<and> delete_reservation 2 two_guests
       = (Inr [(''status'', JStr ''ok''), (''deleted_id'', JInt 2)],
          two_guests\<lparr>reservations := [row_ada]\<rparr>)
   \<and> \<not> int64 (2 ^ 63)
   \<and> delete_reservation (2 ^ 63) two_guests = (Inl OverflowError, two_guests)"
proof -
  have ids: "id' ` set (reservations two_guests) = {1, 2}"
    using two_guests_ids by (metis list.set_map list.simps(15) empty_set)
  have absent: "int64 7 \<and> 7 \<notin> id' ` set (reservations two_guests)"
    and present: "int64 2 \<and> 2 \<in> id' ` set (reservations two_guests)"
    and big: "\<not> int64 (2 ^ 63)"
    by (simp_all add: ids int64_def)
  from delete_reservation_outcomes [of 7 two_guests] absent
  have a: "delete_reservation 7 two_guests = (Inl NotFound, two_guests)" by blast
  from delete_reservation_outcomes [of 2 two_guests] present
  obtain db' where b: "delete_reservation 2 two_guests
       = (Inr [(''status'', JStr ''ok''), (''deleted_id'', JInt 2)], db')"
    by blast
  have "snd (delete_reservation 2 two_guests) = two_guests\<lparr>reservations := [row_ada]\<rparr>"
    by (simp add: delete_reservation_def two_guests_def row_ada_def row_bob_def Let_def
        int64_def)
  with b have b': "db' = two_guests\<lparr>reservations := [row_ada]\<rparr>" by simp
  from delete_reservation_outcomes [of "2 ^ 63" two_guests] big
  have c: "delete_reservation (2 ^ 63) two_guests = (Inl OverflowError, two_guests)" by blast
  from a b b' c absent present big show ?thesis by simp
qed

text \<open>
  C5, as it is stated, fails for an id that does not fit 64 bits: no row has the id
  \<open>2 ^ 63\<close>, and the answer is not \<^verbatim>\<open>NotFound\<close> but the \<^verbatim>\<open>OverflowError\<close> that the
  driver raises when it is to bind the id.
\<close>

theorem delete_reservation_out_of_range_counterexample:
  "2 ^ 63 \<notin> id' ` set (reservations two_guests)
   \<and> delete_reservation (2 ^ 63) two_guests = (Inl OverflowError, two_guests)
   \<and> fst (delete_reservation (2 ^ 63) two_guests) \<noteq> Inl NotFound"
proof -
  have "id' ` set (reservations two_guests) = {1, 2}"
    using two_guests_ids by (metis list.set_map list.simps(15) empty_set)
  then show ?thesis
    by (simp add: delete_reservation_def int64_def)
qed

subsection \<open>\<^verbatim>\<open>create_reservation\<close>\<close>

text \<open>The rowid of a new row is above every rowid in the table and above the counter.\<close>

lemma next_rowid_fresh:
  assumes "r \<in> set (reservations db)"
  shows "id' r < next_rowid db"
proof -
  from assms have ne: "reservations db \<noteq> []" by auto
  have "id' r \<le> Max (set (map id' (reservations db)))"
    using assms by (intro Max_ge) auto
  with ne show ?thesis by (simp add: next_rowid_def Let_def)
qed

lemma next_rowid_above_sequence: "sqlite_sequence db < next_rowid db"
  by (simp add: next_rowid_def Let_def)


lemma find_new_row:
  assumes "id' x = next_rowid db"
  shows "find (\<lambda>r. id' r = next_rowid db) (reservations db @ [x]) = Some x"
proof (rule find_append_fresh)
  fix r assume "r \<in> set (reservations db)"
  then have "id' r < next_rowid db" by (rule next_rowid_fresh)
  then show "id' r \<noteq> next_rowid db" by simp
qed (rule assms)

text \<open>
  When the \<^verbatim>\<open>INSERT\<close> goes through, the read after it finds the inserted row. When
  it does not, the handler answers with one of the three exceptions and the
  database is as it was.
\<close>

lemma create_reservation_result:
  assumes "insertable payload db"
  shows "create_reservation now payload db =
     (let row = \<lparr>guest_name = guest_name payload,
                 guest_email = guest_email payload,
                 guest_phone = guest_phone payload,
                 check_in = check_in payload,
                 check_out = check_out payload,
                 check_in_time = check_in_time payload,
                 check_out_time = check_out_time payload,
                 room_type = room_type payload,
                 room_count = room_count payload,
                 adults = adults payload,
                 children = children payload,
                 total_price = total_price payload,
                 payment_status = payment_status payload,
                 special_requests = special_requests payload,
                 experiences = Some (py_or (experiences payload) ''''),
                 id' = next_rowid db,
                 created_at = now\<rparr>
      in (Inr row, \<lparr>reservations = reservations db @ [row], sqlite_sequence = next_rowid db\<rparr>))"
  using assms
  by (simp add: create_reservation_def insertable_def select_by_id_def Let_def find_new_row)

lemma create_reservation_refused:
  assumes "\<not> insertable payload db"
  shows "create_reservation now payload db = (Inl OverflowError, db)
       \<or> create_reservation now payload db = (Inl OperationalError, db)
       \<or> create_reservation now payload db = (Inl IntegrityError, db)"
  using assms by (auto simp: create_reservation_def insertable_def)

text \<open>
  C6. A body whose \<^verbatim>\<open>guest_email\<close> the validator rejects is answered with
  \<^verbatim>\<open>ValidationError\<close>, and the database after the request is the database before it.
\<close>

theorem post_reservations_rejects_invalid_email:
  assumes "EmailStr (guest_email body) = None"
  shows "post_reservations EmailStr now body db = (Inl ValidationError, db)"
  using assms by (simp add: post_reservations_def)

theorem post_reservations_rejects_invalid_email_witness:
  "example_EmailStr (guest_email (payload_ada\<lparr>guest_email := ''ada.example.com''\<rparr>)) = None
   \<and> post_reservations example_EmailStr ''2024-01-15T10:30:45.100000''
        (payload_ada\<lparr>guest_email := ''ada.example.com''\<rparr>) two_guests
       = (Inl ValidationError, two_guests)"
proof -
  have h: "example_EmailStr (guest_email (payload_ada\<lparr>guest_email := ''ada.example.com''\<rparr>))
           = None"
    by (simp add: example_EmailStr_def)
  from post_reservations_rejects_invalid_email
         [of example_EmailStr "payload_ada\<lparr>guest_email := ''ada.example.com''\<rparr>", OF h] h
  show ?thesis by simp
qed

text \<open>
  The route, case by case: the validator accepts the address and the \<^verbatim>\<open>INSERT\<close> goes
  through, or the request fails and the database is as it was.
\<close>

lemma insertable_guest_email [simp]:
  "insertable (body\<lparr>guest_email := e\<rparr>) db = insertable body db"
  by (simp add: insertable_def)

lemma post_reservations_accepted:
  assumes "EmailStr (guest_email body) = Some e" and "insertable body db"
  shows "\<exists>r. post_reservations EmailStr now body db
             = (Inr r, \<lparr>reservations = reservations db @ [r], sqlite_sequence = next_rowid db\<rparr>)
      \<and> id' r = next_rowid db
      \<and> created_at r = now
      \<and> guest_email r = e
      \<and> guest_name r = guest_name body
      \<and> guest_phone r = guest_phone body
      \<and> check_in r = check_in body
      \<and> check_out r = check_out body
      \<and> check_in_time r = check_in_time body
      \<and> check_out_time r = check_out_time body
      \<and> room_type r = room_type body
      \<and> room_count r = room_count body
      \<and> adults r = adults body
      \<and> children r = children body
      \<and> total_price r = total_price body
      \<and> payment_status r = payment_status body
      \<and> special_requests r = special_requests body
      \<and> experiences r = Some (py_or (experiences body) '''')"
  using assms
  by (simp add: post_reservations_def create_reservation_result Let_def)

lemma post_reservations_refused:
  assumes "EmailStr (guest_email body) = None \<or> \<not> insertable body db"
  shows "\<exists>e. post_reservations EmailStr now body db = (Inl e, db)"
proof (cases "EmailStr (guest_email body)")
  case None
  then show ?thesis by (simp add: post_reservations_def)
next
  case (Some a)
  with assms have "\<not> insertable (body\<lparr>guest_email := a\<rparr>) db" by simp
  from create_reservation_refused [OF this, of now] Some show ?thesis
    by (auto simp: post_reservations_def)
qed

lemma post_reservations_cases:
  "(\<exists>e. post_reservations EmailStr now body db = (Inl e, db))
   \<or> (\<exists>r. post_reservations EmailStr now body db
             = (Inr r, \<lparr>reservations = reservations db @ [r], sqlite_sequence = next_rowid db\<rparr>)
          \<and> id' r = next_rowid db)"
proof (cases "EmailStr (guest_email body) = None \<or> \<not> insertable body db")
  case True
  from post_reservations_refused
         [where EmailStr = EmailStr and body = body and db = db and now = now, OF True]
  show ?thesis by blast
next
  case False
  then obtain e where e: "EmailStr (guest_email body) = Some e" and ok: "insertable body db"
    by auto
  from post_reservations_accepted
         [where EmailStr = EmailStr and body = body and db = db and now = now, OF e ok]
  show ?thesis by blast
qed







subsection \<open>\<^verbatim>\<open>list_reservations\<close>\<close>

lemma mset_insert_desc: "mset (insert_desc key x ys) = add_mset x (mset ys)"
  by (induction ys) simp_all

lemma mset_order_by_desc: "mset (order_by_desc key xs) = mset xs"
  by (induction xs) (simp_all add: mset_insert_desc)

lemma set_insert_desc: "set (insert_desc key x ys) = insert x (set ys)"
  by (induction ys) auto

lemma sorted_insert_desc:
  assumes "sorted_wrt (\<lambda>a b. key b \<le> key a) ys"
  shows "sorted_wrt (\<lambda>a b. key b \<le> key a) (insert_desc key x ys)"
  using assms by (induction ys) (auto simp: set_insert_desc)

lemma sorted_order_by_desc: "sorted_wrt (\<lambda>a b. key b \<le> key a) (order_by_desc key xs)"
  by (induction xs) (simp_all add: sorted_insert_desc)

text \<open>
  C7, as the code has it. \<^verbatim>\<open>list_reservations\<close> always succeeds and leaves the
  database alone. Its answer holds every stored row once, no other row, and is
  empty for an empty table. The rows are in non-increasing order of
  \<^verbatim>\<open>datetime(created_at)\<close>, the key of the \<^verbatim>\<open>ORDER BY\<close>; the theorem says nothing on the
  order of two rows with the same key.
\<close>

theorem list_reservations_ordered_by_datetime:
  "\<exists>rs. list_reservations datetime db = (Inr rs, db)
      \<and> mset rs = mset (reservations db)
      \<and> (reservations db = [] \<longrightarrow> rs = [])
      \<and> sorted_wrt (\<lambda>a b. datetime (created_at b) \<le> datetime (created_at a)) rs"
  by (simp add: list_reservations_def mset_order_by_desc sorted_order_by_desc)

lemma iso_datetime_ada: "iso_datetime (created_at row_ada) = Some ''2024-01-15 10:30:45''"
  by (simp add: row_ada_def iso_datetime_def iso_date_def two_digits_def in_range_def digit_def)

lemma iso_datetime_bob: "iso_datetime (created_at row_bob) = Some ''2024-01-15 10:30:45''"
  by (simp add: row_bob_def iso_datetime_def iso_date_def two_digits_def in_range_def digit_def)

lemma list_two_guests:
  "list_reservations iso_datetime two_guests = (Inr [row_ada, row_bob], two_guests)"
  by (simp add: list_reservations_def two_guests_def iso_datetime_ada iso_datetime_bob)

theorem list_reservations_ordered_by_datetime_witness:
  "reservations no_guests = []
   \<and> list_reservations iso_datetime no_guests = (Inr [], no_guests)
   \<and> list_reservations iso_datetime two_guests = (Inr [row_ada, row_bob], two_guests)
   \<and> iso_datetime (created_at row_bob) \<le> iso_datetime (created_at row_ada)"
proof -
  have e: "reservations no_guests = []" by (simp add: no_guests_def init_db_def)
  from list_reservations_ordered_by_datetime [of iso_datetime no_guests] e
  have a: "list_reservations iso_datetime no_guests = (Inr [], no_guests)" by auto
  from list_reservations_ordered_by_datetime [of iso_datetime two_guests]
  have "sorted_wrt (\<lambda>a b. iso_datetime (created_at b) \<le> iso_datetime (created_at a))
          [row_ada, row_bob]"
    by (simp add: list_two_guests)
  then have "iso_datetime (created_at row_bob) \<le> iso_datetime (created_at row_ada)" by simp
  with e a list_two_guests show ?thesis by simp
qed

text \<open>
  C7, as it is stated, fails for two bookings made within one second. Their keys
  \<^verbatim>\<open>datetime(created_at)\<close> are equal, and the booking created first, with the smaller
  \<^verbatim>\<open>created_at\<close>, comes first in the answer.
\<close>

theorem list_reservations_same_second_counterexample:
  "fst (list_reservations iso_datetime two_guests) = Inr [row_ada, row_bob]
   \<and> created_at row_ada = ''2024-01-15T10:30:45.100000''
   \<and> created_at row_bob = ''2024-01-15T10:30:45.900000''
   \<and> created_at row_ada < created_at row_bob
   \<and> iso_datetime (created_at row_ada) = iso_datetime (created_at row_bob)"
  by (simp add: list_two_guests iso_datetime_ada iso_datetime_bob)
     (simp add: row_ada_def row_bob_def)

subsection \<open>\<^verbatim>\<open>cleanup_expired_reservations\<close>\<close>

text \<open>The condition of the two statements, with the \<^verbatim>\<open>NULL\<close> case spelled out.\<close>

lemma expired_iff:
  "expired date today r \<longleftrightarrow> (\<exists>d. date (take 10 (check_out r)) = Some d \<and> d < today)"
  by (simp add: expired_def split: option.splits)

lemma expired_eq:
  "expired date today = (\<lambda>r. \<exists>d. date (take 10 (check_out r)) = Some d \<and> d < today)"
  by (rule ext) (rule expired_iff)

lemma length_filter_complement:
  "length (filter P xs) = length xs - length (filter (\<lambda>x. \<not> P x) xs)"
  using sum_length_filter_compl [of P xs] by simp

text \<open>
  C2. \<^verbatim>\<open>cleanup_expired_reservations\<close> always succeeds. It keeps, in their order, the
  rows for which \<^verbatim>\<open>date\<close> of the first ten characters of \<^verbatim>\<open>check_out\<close> is not a date
  before \<open>today_delete\<close>, and removes the others: a row whose check-out date is \<open>d\<close>
  stays exactly when \<open>today_delete \<le> d\<close>. The dates are compared as text, which
  for dates \<^verbatim>\<open>YYYY-MM-DD\<close> is the order of the calendar (lemma \<open>iso_date_text_order\<close>
  below). The answer carries the number of rows that matched when they were counted
  and the number of rows removed; the two are equal when the date did not change
  between the two statements.
\<close>

theorem cleanup_deletes_exactly_the_expired:
  "\<exists>db' to_delete deleted.
      cleanup_expired_reservations date today_count today_delete db
        = (Inr [(''status'', JStr ''ok''),
                (''to_delete'', JInt (int to_delete)),
                (''deleted_count'', JInt (int deleted))], db')
    \<and> reservations db'
        = filter (\<lambda>r. \<not> (\<exists>d. date (take 10 (check_out r)) = Some d \<and> d < today_delete))
            (reservations db)
    \<and> (\<forall>r \<in> set (reservations db). \<forall>d. date (take 10 (check_out r)) = Some d \<longrightarrow>
          (r \<in> set (reservations db') \<longleftrightarrow> today_delete \<le> d))
    \<and> sqlite_sequence db' = sqlite_sequence db
    \<and> to_delete
        = length (filter (\<lambda>r. \<exists>d. date (take 10 (check_out r)) = Some d \<and> d < today_count)
            (reservations db))
    \<and> deleted = length (reservations db) - length (reservations db')
    \<and> (today_count = today_delete \<longrightarrow> to_delete = deleted)"
proof -
  let ?gone = "\<lambda>today r. \<exists>d. date (take 10 (check_out r)) = Some d \<and> d < today"
  define db' where
    "db' = db\<lparr>reservations := filter (\<lambda>r. \<not> ?gone today_delete r) (reservations db)\<rparr>"
  define to_delete where "to_delete = length (filter (?gone today_count) (reservations db))"
  define deleted where "deleted = length (filter (?gone today_delete) (reservations db))"
  have run: "cleanup_expired_reservations date today_count today_delete db
        = (Inr [(''status'', JStr ''ok''),
                (''to_delete'', JInt (int to_delete)),
                (''deleted_count'', JInt (int deleted))], db')"
    by (simp add: cleanup_expired_reservations_def Let_def expired_iff expired_eq
        db'_def to_delete_def deleted_def)
  have rows: "reservations db' = filter (\<lambda>r. \<not> ?gone today_delete r) (reservations db)"
    by (simp add: db'_def)
  have kept: "r \<in> set (reservations db') \<longleftrightarrow> today_delete \<le> d"
    if "r \<in> set (reservations db)" "date (take 10 (check_out r)) = Some d" for r d
    using that by (auto simp: rows)
  have seq: "sqlite_sequence db' = sqlite_sequence db"
    by (simp add: db'_def)
  have count: "deleted = length (reservations db) - length (reservations db')"
    unfolding deleted_def rows by (rule length_filter_complement)
  have same: "to_delete = deleted" if "today_count = today_delete"
    using that by (simp add: to_delete_def deleted_def)
  from run rows kept seq count same show ?thesis
    unfolding to_delete_def by blast
qed

lemma iso_date_ada: "iso_date (take 10 (check_out row_ada)) = Some ''2024-01-14''"
  by (simp add: row_ada_def iso_date_def two_digits_def in_range_def digit_def)

lemma iso_date_bob: "iso_date (take 10 (check_out row_bob)) = Some ''2024-01-16''"
  by (simp add: row_bob_def iso_date_def two_digits_def in_range_def digit_def)

lemma cleanup_two_guests:
  "cleanup_expired_reservations iso_date ''2024-01-15'' ''2024-01-15'' two_guests
     = (Inr [(''status'', JStr ''ok''), (''to_delete'', JInt 1), (''deleted_count'', JInt 1)],
        two_guests\<lparr>reservations := [row_bob]\<rparr>)"
  by (simp add: cleanup_expired_reservations_def expired_def iso_date_ada iso_date_bob
      two_guests_def Let_def)

lemma cleanup_two_guests_early:
  "cleanup_expired_reservations iso_date ''2024-01-14'' ''2024-01-14'' two_guests
     = (Inr [(''status'', JStr ''ok''), (''to_delete'', JInt 0), (''deleted_count'', JInt 0)],
        two_guests)"
  by (simp add: cleanup_expired_reservations_def expired_def iso_date_ada iso_date_bob
      two_guests_def Let_def)

theorem cleanup_deletes_exactly_the_expired_witness:
  "row_ada \<in> set (reservations two_guests)
   \<and> iso_date (take 10 (check_out row_ada)) = Some ''2024-01-14''
   \<and> cleanup_expired_reservations iso_date ''2024-01-15'' ''2024-01-15'' two_guests
       = (Inr [(''status'', JStr ''ok''), (''to_delete'', JInt 1), (''deleted_count'', JInt 1)],
          two_guests\<lparr>reservations := [row_bob]\<rparr>)
   \<and> \<not> ''2024-01-15'' \<le> ''2024-01-14''
   \<and> row_ada \<notin> set (reservations (two_guests\<lparr>reservations := [row_bob]\<rparr>))
   \<and> cleanup_expired_reservations iso_date ''2024-01-14'' ''2024-01-14'' two_guests
       = (Inr [(''status'', JStr ''ok''), (''to_delete'', JInt 0), (''deleted_count'', JInt 0)],
          two_guests)
   \<and> ''2024-01-14'' \<le> ''2024-01-14''
   \<and> row_ada \<in> set (reservations two_guests)"
proof -
  have mem: "row_ada \<in> set (reservations two_guests)" by (simp add: two_guests_def)
  have late: "\<not> ''2024-01-15'' \<le> ''2024-01-14''" by simp
  from cleanup_deletes_exactly_the_expired
         [of iso_date "''2024-01-15''" "''2024-01-15''" two_guests]
  obtain db' where "snd (cleanup_expired_reservations iso_date ''2024-01-15'' ''2024-01-15''
                      two_guests) = db'"
    and "\<forall>r \<in> set (reservations two_guests). \<forall>d. iso_date (take 10 (check_out r)) = Some d \<longrightarrow>
          (r \<in> set (reservations db') \<longleftrightarrow> ''2024-01-15'' \<le> d)"
    by auto
  with mem iso_date_ada late
  have gone: "row_ada \<notin> set (reservations (two_guests\<lparr>reservations := [row_bob]\<rparr>))"
    by (auto simp: cleanup_two_guests)
  show ?thesis
    using mem iso_date_ada cleanup_two_guests cleanup_two_guests_early gone by simp
qed

text \<open>
  C9. The table holds two rows, in either order; the check-out date of one is before
  today and that of the other is after today, as SQLite compares them: as text,
  which for dates is the order of the calendar (lemma \<open>iso_date_text_order\<close> below),
  so the day before today and the day after are such dates. With the date unchanged
  throughout, \<^verbatim>\<open>cleanup_expired_reservations\<close> removes the first row only and reports
  1 and 1, and a second run on the result reports 0 and 0 and leaves the database
  as the first run left it.
\<close>

theorem cleanup_yesterday_and_tomorrow:
  assumes "reservations db = [r1, r2] \<or> reservations db = [r2, r1]"
      and "date (take 10 (check_out r1)) = Some yesterday" and "yesterday < today"
      and "date (take 10 (check_out r2)) = Some tomorrow" and "today < tomorrow"
    shows "\<exists>db1. cleanup_expired_reservations date today today db
             = (Inr [(''status'', JStr ''ok''), (''to_delete'', JInt 1),
                     (''deleted_count'', JInt 1)], db1)
         \<and> reservations db1 = [r2]
         \<and> cleanup_expired_reservations date today today db1
             = (Inr [(''status'', JStr ''ok''), (''to_delete'', JInt 0),
                     (''deleted_count'', JInt 0)], db1)"
proof -
  have e1: "expired date today r1" using assms(2,3) by (simp add: expired_def)
  have e2: "\<not> expired date today r2" using assms(4,5) by (simp add: expired_def)
  from assms(1) e1 e2 show ?thesis
    by (auto simp: cleanup_expired_reservations_def Let_def)
qed

theorem cleanup_yesterday_and_tomorrow_witness:
  "(reservations two_guests = [row_ada, row_bob] \<or> reservations two_guests = [row_bob, row_ada])
   \<and> iso_date (take 10 (check_out row_ada)) = Some ''2024-01-14''
   \<and> ''2024-01-14'' < ''2024-01-15''
   \<and> iso_date (take 10 (check_out row_bob)) = Some ''2024-01-16''
   \<and> ''2024-01-15'' < ''2024-01-16''
   \<and> ymd ''2024-01-14'' = (2024, 1, 14)
   \<and> ymd ''2024-01-15'' = (2024, 1, 15)
   \<and> ymd ''2024-01-16'' = (2024, 1, 16)
   \<and> (\<exists>db1. cleanup_expired_reservations iso_date ''2024-01-15'' ''2024-01-15'' two_guests
             = (Inr [(''status'', JStr ''ok''), (''to_delete'', JInt 1),
                     (''deleted_count'', JInt 1)], db1)
         \<and> reservations db1 = [row_bob]
         \<and> cleanup_expired_reservations iso_date ''2024-01-15'' ''2024-01-15'' db1
             = (Inr [(''status'', JStr ''ok''), (''to_delete'', JInt 0),
                     (''deleted_count'', JInt 0)], db1))"
proof -
  have rows: "reservations two_guests = [row_ada, row_bob] \<or> reservations two_guests = [row_bob, row_ada]"
    by (simp add: two_guests_def)
  have y: "''2024-01-14'' < ''2024-01-15''" and t: "''2024-01-15'' < ''2024-01-16''"
    by simp_all
  have days: "ymd ''2024-01-14'' = (2024, 1, 14)" "ymd ''2024-01-15'' = (2024, 1, 15)"
    "ymd ''2024-01-16'' = (2024, 1, 16)"
    by (simp_all add: ymd_def digit_value_def)
  from cleanup_yesterday_and_tomorrow [OF rows iso_date_ada y iso_date_bob t]
       rows iso_date_ada iso_date_bob y t days
  show ?thesis by blast
qed

subsection \<open>Ids over a history of requests\<close>

lemma update_reservation_sequence:
  "sqlite_sequence (snd (update_reservation i ps sr ex db)) = sqlite_sequence db"
proof (cases "select_by_id i db")
  case None
  then show ?thesis by (simp add: update_reservation_def)
next
  case (Some cur)
  show ?thesis unfolding update_reservation_found [OF Some] by simp
qed

lemma serve_sequence:
  assumes "serve EmailStr date datetime q db = (a, db')"
  shows "case a of None \<Rightarrow> sqlite_sequence db' = sqlite_sequence db
         | Some i \<Rightarrow> sqlite_sequence db < i \<and> sqlite_sequence db' = i"
proof (cases q)
  case (Create body now)
  from post_reservations_cases [of EmailStr now body db] assms show ?thesis
    unfolding Create by (auto simp: next_rowid_above_sequence)
next
  case (PartialUpdate i ps sr ex)
  with assms show ?thesis by (auto simp: update_reservation_sequence)
qed (use assms in \<open>auto simp: list_reservations_def get_reservation_def
      delete_reservation_def cleanup_expired_reservations_def Let_def split: option.splits\<close>)

lemma assigned_ids_increase:
  "sorted_wrt (<) (assigned_ids EmailStr date datetime qs db)
   \<and> (\<forall>i \<in> set (assigned_ids EmailStr date datetime qs db). sqlite_sequence db < i)"
proof (induction qs arbitrary: db)
  case Nil
  show ?case by simp
next
  case (Cons q qs)
  obtain a db' where s: "serve EmailStr date datetime q db = (a, db')"
    by (cases "serve EmailStr date datetime q db")
  note seq = serve_sequence [OF s]
  note IH = Cons.IH [of db']
  show ?case
  proof (cases a)
    case None
    with s seq IH show ?thesis by simp
  next
    case (Some i)
    with seq have "sqlite_sequence db < i" "sqlite_sequence db' = i" by simp_all
    with s Some IH show ?thesis by auto
  qed
qed

text \<open>
  C8. A successful creation stores one row under the id it answers with, and that id
  is above the id of every row that was in the table and above the
  \<^verbatim>\<open>AUTOINCREMENT\<close> counter. Over any list of requests served one after another,
  deletions and clean-ups among them, the ids given out are strictly increasing, so
  each is above all ids given out before it and none is given out twice.
\<close>

theorem created_ids_are_fresh_and_increasing:
  "(\<forall>r db'. post_reservations EmailStr now body db = (Inr r, db') \<longrightarrow>
       filter (\<lambda>x. id' x = id' r) (reservations db') = [r]
     \<and> (\<forall>x \<in> set (reservations db). id' x < id' r)
     \<and> sqlite_sequence db < id' r)
   \<and> sorted_wrt (<) (assigned_ids EmailStr date datetime requests db)
   \<and> (\<forall>i \<in> set (assigned_ids EmailStr date datetime requests db). sqlite_sequence db < i)
   \<and> distinct (assigned_ids EmailStr date datetime requests db)"
proof -
  have "filter (\<lambda>x. id' x = id' r) (reservations db') = [r]
     \<and> (\<forall>x \<in> set (reservations db). id' x < id' r)
     \<and> sqlite_sequence db < id' r"
    if p: "post_reservations EmailStr now body db = (Inr r, db')" for r db'
  proof -
    from post_reservations_cases [of EmailStr now body db] p
    have rows: "reservations db' = reservations db @ [r]" and new: "id' r = next_rowid db"
      by auto
    have below: "id' x < id' r" if "x \<in> set (reservations db)" for x
      using that new next_rowid_fresh [of x db] by simp
    have "id' x \<noteq> id' r" if "x \<in> set (reservations db)" for x
      using below [OF that] by simp
    then have "filter (\<lambda>x. id' x = id' r) (reservations db) = []"
      by (simp add: filter_empty_conv)
    with below new show ?thesis
      by (simp add: rows next_rowid_above_sequence)
  qed
  moreover have "distinct (assigned_ids EmailStr date datetime requests db)"
    using assigned_ids_increase [of EmailStr date datetime requests db]
    by (simp add: strict_sorted_iff)
  ultimately show ?thesis
    using assigned_ids_increase [of EmailStr date datetime requests db] by blast
qed

lemma post_ada:
  "post_reservations example_EmailStr ''2024-01-15T10:30:45.100000'' payload_ada no_guests
     = (Inr row_ada, one_guest)"
  by (simp add: post_reservations_def example_EmailStr_def create_ada)
     (simp add: payload_ada_def create_ada [unfolded payload_ada_def])

lemma post_bob:
  "post_reservations example_EmailStr ''2024-01-15T10:30:45.900000'' payload_bob
     \<lparr>reservations = [], sqlite_sequence = 1\<rparr>
     = (Inr row_bob, \<lparr>reservations = [row_bob], sqlite_sequence = 2\<rparr>)"
  by (simp add: post_reservations_def example_EmailStr_def create_reservation_def
      next_rowid_def select_by_id_def payload_bob_def row_bob_def py_or_def Let_def
      int64_def rowid_exhausted_def)

theorem created_ids_are_fresh_and_increasing_witness:
  "post_reservations example_EmailStr ''2024-01-15T10:30:45.900000'' payload_bob
     \<lparr>reservations = [], sqlite_sequence = 1\<rparr>
     = (Inr row_bob, \<lparr>reservations = [row_bob], sqlite_sequence = 2\<rparr>)
   \<and> sqlite_sequence \<lparr>reservations = [], sqlite_sequence = 1\<rparr> < id' row_bob
   \<and> assigned_ids example_EmailStr iso_date iso_datetime
        [Create payload_ada ''2024-01-15T10:30:45.100000'',
         Delete 1,
         Create payload_bob ''2024-01-15T10:30:45.900000''] no_guests
       = [1, 2]
   \<and> sqlite_sequence no_guests < 1"
proof -
  have run: "assigned_ids example_EmailStr iso_date iso_datetime
        [Create payload_ada ''2024-01-15T10:30:45.100000'',
         Delete 1,
         Create payload_bob ''2024-01-15T10:30:45.900000''] no_guests
       = [1, 2]"
    by (simp add: post_ada post_bob delete_reservation_def one_guest_def row_ada_def
        row_bob_def Let_def int64_def)
  from created_ids_are_fresh_and_increasing
         [of example_EmailStr "''2024-01-15T10:30:45.900000''" payload_bob
             "\<lparr>reservations = [], sqlite_sequence = 1\<rparr>" iso_date iso_datetime
             "[Create payload_ada ''2024-01-15T10:30:45.100000'', Delete 1,
               Create payload_bob ''2024-01-15T10:30:45.900000'']"]
  have "sqlite_sequence \<lparr>reservations = [], sqlite_sequence = 1\<rparr> < id' row_bob"
    by (simp add: post_bob)
  moreover
  from created_ids_are_fresh_and_increasing
         [of example_EmailStr "''2024-01-15T10:30:45.100000''" payload_ada no_guests
             iso_date iso_datetime
             "[Create payload_ada ''2024-01-15T10:30:45.100000'', Delete 1,
               Create payload_bob ''2024-01-15T10:30:45.900000'']"]
  have "\<forall>i \<in> set (assigned_ids example_EmailStr iso_date iso_datetime
             [Create payload_ada ''2024-01-15T10:30:45.100000'', Delete 1,
              Create payload_bob ''2024-01-15T10:30:45.900000''] no_guests).
          sqlite_sequence no_guests < i"
    by (rule conjunct2 [THEN conjunct2, THEN conjunct1])
  then have "sqlite_sequence no_guests < 1" unfolding run by simp
  ultimately show ?thesis using post_bob run by simp
qed

subsection \<open>The primary key over a history of requests\<close>

text \<open>
  Every handler keeps the rows in ascending order of their ids, with no id twice:
  a new row gets an id above all others and goes to the end, an update leaves the
  ids alone, and the two deletions only take rows away. So the ids are pairwise
  distinct in every database that the application has built from an empty file.
\<close>

lemma rowid_order_distinct:
  assumes "rowid_order db"
  shows "distinct (map id' (reservations db))"
proof -
  from assms have "sorted_wrt (<) (map id' (reservations db))"
    by (simp add: rowid_order_def sorted_wrt_map)
  then show ?thesis by (simp add: strict_sorted_iff)
qed

lemma update_reservation_ids:
  "map id' (reservations (snd (update_reservation i ps sr ex db))) = map id' (reservations db)"
proof (cases "select_by_id i db")
  case None
  then show ?thesis by (simp add: update_reservation_def)
next
  case (Some cur)
  show ?thesis unfolding update_reservation_found [OF Some] by (simp add: o_def)
qed

lemma serve_keeps_rowid_order:
  assumes "rowid_order db"
  shows "rowid_order (snd (serve EmailStr date datetime q db))"
proof (cases q)
  case (Create body now)
  from post_reservations_cases [of EmailStr now body db] show ?thesis
  proof
    assume "\<exists>e. post_reservations EmailStr now body db = (Inl e, db)"
    with assms show ?thesis by (auto simp: Create)
  next
    assume "\<exists>r. post_reservations EmailStr now body db
             = (Inr r, \<lparr>reservations = reservations db @ [r], sqlite_sequence = next_rowid db\<rparr>)
          \<and> id' r = next_rowid db"
    then obtain r where p: "post_reservations EmailStr now body db
             = (Inr r, \<lparr>reservations = reservations db @ [r], sqlite_sequence = next_rowid db\<rparr>)"
      and new: "id' r = next_rowid db" by blast
    have "id' x < id' r" if "x \<in> set (reservations db)" for x
      using that new next_rowid_fresh [of x db] by simp
    with assms show ?thesis
      by (simp add: Create p rowid_order_def sorted_wrt_append)
  qed
next
  case ListAll
  with assms show ?thesis by (simp add: list_reservations_def)
next
  case (GetById i)
  with assms show ?thesis by (simp add: get_reservation_def split: option.splits)
next
  case (PartialUpdate i ps sr ex)
  have "sorted_wrt (<) (map id' (reservations db))"
    using assms by (simp add: rowid_order_def sorted_wrt_map)
  then have "sorted_wrt (<) (map id' (reservations (snd (update_reservation i ps sr ex db))))"
    by (simp only: update_reservation_ids)
  then show ?thesis by (simp add: PartialUpdate rowid_order_def sorted_wrt_map)
next
  case (Delete i)
  with assms show ?thesis
    by (simp add: delete_reservation_def rowid_order_def Let_def sorted_wrt_filter)
next
  case (CleanupExpired today_count today_delete)
  with assms show ?thesis
    by (simp add: cleanup_expired_reservations_def rowid_order_def Let_def sorted_wrt_filter)
qed

lemma serve_all_keeps_rowid_order:
  "rowid_order db \<Longrightarrow> rowid_order (serve_all EmailStr date datetime qs db)"
  by (induction qs arbitrary: db) (simp_all add: serve_keeps_rowid_order)

lemma reachable_ids_distinct:
  "distinct (map id' (reservations (serve_all EmailStr date datetime qs (init_db None))))"
proof -
  have "rowid_order (init_db None :: 'a py_float database)"
    by (simp add: rowid_order_def init_db_def)
  then show ?thesis
    by (intro rowid_order_distinct serve_all_keeps_rowid_order)
qed

text \<open>
  The counter only grows, so it is never negative in a database that the
  application has built from an empty file.
\<close>

lemma serve_all_sequence_mono:
  "sqlite_sequence db \<le> sqlite_sequence (serve_all EmailStr date datetime qs db)"
proof (induction qs arbitrary: db)
  case Nil
  show ?case by simp
next
  case (Cons q qs)
  obtain a db' where s: "serve EmailStr date datetime q db = (a, db')"
    by (cases "serve EmailStr date datetime q db")
  from serve_sequence [OF s] have "sqlite_sequence db \<le> sqlite_sequence db'"
    by (cases a) simp_all
  with Cons.IH [of db'] s show ?case by simp
qed

lemma reachable_sequence_nonnegative:
  "0 \<le> sqlite_sequence (serve_all EmailStr date datetime qs (init_db None))"
  using serve_all_sequence_mono [of "init_db None" EmailStr date datetime qs]
  by (simp add: init_db_def)

subsection \<open>Text order and calendar order\<close>

text \<open>
  SQLite compares the two dates of the clean-up condition as text. On dates in the
  form \<^verbatim>\<open>YYYY-MM-DD\<close> that is the order of the calendar: the earlier date is the
  smaller text.
\<close>

lemma digit_less: "digit a \<Longrightarrow> digit b \<Longrightarrow> a < b \<longleftrightarrow> digit_value a < digit_value b"
  by (auto simp: digit_def less_char_def less_eq_char_def digit_value_def)

lemma digit_eq: "digit a \<Longrightarrow> digit b \<Longrightarrow> a = b \<longleftrightarrow> digit_value a = digit_value b"
  using digit_less [of a b] digit_less [of b a] by auto

lemma digit_value_bound: "digit c \<Longrightarrow> digit_value c \<le> 9"
  by (auto simp: digit_def less_char_def less_eq_char_def digit_value_def)

lemma place_value_less:
  fixes p :: nat
  assumes "x < p" "a < b"
  shows "a * p + x < b * p + y"
proof -
  have "a * p + x < Suc a * p" using assms(1) by simp
  also have "\<dots> \<le> b * p" using assms(2) by (intro mult_le_mono1) simp
  finally show ?thesis by simp
qed

lemma place_value:
  fixes p :: nat
  assumes "x < p" "y < p"
  shows "a * p + x < b * p + y \<longleftrightarrow> a < b \<or> a = b \<and> x < y"
    and "a * p + x = b * p + y \<longleftrightarrow> a = b \<and> x = y"
proof -
  consider "a < b" | "a = b" | "b < a" by (rule linorder_cases)
  then have "(a * p + x < b * p + y \<longleftrightarrow> a < b \<or> a = b \<and> x < y)
           \<and> (a * p + x = b * p + y \<longleftrightarrow> a = b \<and> x = y)"
  proof cases
    case 1
    with place_value_less [OF assms(1), of a b y] show ?thesis by simp
  next
    case 2
    then show ?thesis by simp
  next
    case 3
    with place_value_less [OF assms(2), of b a x] show ?thesis by simp
  qed
  then show "a * p + x < b * p + y \<longleftrightarrow> a < b \<or> a = b \<and> x < y"
    and "a * p + x = b * p + y \<longleftrightarrow> a = b \<and> x = y" by simp_all
qed

lemma number_bound: "list_all digit xs \<Longrightarrow> number xs < 10 ^ length xs"
proof (induction xs)
  case Nil
  show ?case by simp
next
  case (Cons c cs)
  then have "digit_value c \<le> 9" and IH: "number cs < 10 ^ length cs"
    by (simp_all add: digit_value_bound)
  then have "digit_value c * 10 ^ length cs \<le> 9 * 10 ^ length cs"
    by (intro mult_le_mono1)
  with IH have "digit_value c * 10 ^ length cs + number cs < 9 * 10 ^ length cs + 10 ^ length cs"
    by linarith
  then show ?case by simp
qed

lemma number_order:
  assumes "length xs = length ys" "list_all digit xs" "list_all digit ys"
  shows "(xs < ys \<longleftrightarrow> number xs < number ys) \<and> (xs = ys \<longleftrightarrow> number xs = number ys)"
  using assms
proof (induction xs ys rule: list_induct2)
  case Nil
  show ?case by simp
next
  case (Cons a xs b ys)
  then have d: "digit a" "digit b" and r: "list_all digit xs" "list_all digit ys" by simp_all
  note IH = Cons.IH [OF r]
  have bx: "number xs < 10 ^ length ys" and by': "number ys < 10 ^ length ys"
    using number_bound [OF r(1)] number_bound [OF r(2)] Cons.hyps by simp_all
  show ?case
    using IH Cons.hyps digit_less [OF d] digit_eq [OF d] place_value [OF bx by']
    by simp
qed

lemma append_less_same_length:
  fixes xs ys :: "'a::linorder list"
  shows "length xs = length ys \<Longrightarrow> xs @ u < ys @ v \<longleftrightarrow> xs < ys \<or> xs = ys \<and> u < v"
  by (induction xs ys rule: list_induct2) auto

lemma two_digits_SomeD:
  assumes "in_range lo hi (two_digits s)"
  shows "length s = 2 \<and> list_all digit s"
  using assms
  by (auto simp: in_range_def two_digits_def split: option.splits list.splits if_splits)

lemma iso_date_shape:
  assumes "iso_date s = Some d"
  shows "d = s"
    and "s = take 4 s @ CHR ''-'' # take 2 (drop 5 s) @ CHR ''-'' # drop 8 s"
    and "list_all digit (take 4 s)" "length (take 4 s) = 4"
    and "list_all digit (take 2 (drop 5 s))" "length (take 2 (drop 5 s)) = 2"
    and "list_all digit (drop 8 s)" "length (drop 8 s) = 2"
proof -
  from assms have len: "length s = 10" and y: "list_all digit (take 4 s)"
    and h1: "s ! 4 = CHR ''-''" and m: "in_range 1 12 (two_digits (take 2 (drop 5 s)))"
    and h2: "s ! 7 = CHR ''-''" and dd: "in_range 1 28 (two_digits (drop 8 s))"
    and same: "d = s"
    by (auto simp: iso_date_def split: if_splits)
  show "d = s" by (rule same)
  show "list_all digit (take 4 s)" by (rule y)
  show "length (take 4 s) = 4" using len by simp
  show "list_all digit (take 2 (drop 5 s))" "length (take 2 (drop 5 s)) = 2"
    using two_digits_SomeD [OF m] by simp_all
  show "list_all digit (drop 8 s)" "length (drop 8 s) = 2"
    using two_digits_SomeD [OF dd] by simp_all
  have "s = take 4 s @ drop 4 s" by simp
  also have "drop 4 s = s ! 4 # drop 5 s"
    using len by (simp add: Cons_nth_drop_Suc [symmetric])
  also have "drop 5 s = take 2 (drop 5 s) @ drop 7 s"
    using append_take_drop_id [of 2 "drop 5 s"] by simp
  also have "drop 7 s = s ! 7 # drop 8 s"
    using len by (simp add: Cons_nth_drop_Suc [symmetric])
  finally show "s = take 4 s @ CHR ''-'' # take 2 (drop 5 s) @ CHR ''-'' # drop 8 s"
    using h1 h2 by simp
qed

lemma iso_date_text_order:
  assumes "iso_date s = Some s'" and "iso_date t = Some t'"
  shows "s' < t' \<longleftrightarrow> ymd s < ymd t"
proof -
  note S = iso_date_shape [OF assms(1)] and T = iso_date_shape [OF assms(2)]
  let ?ys = "take 4 s" and ?ms = "take 2 (drop 5 s)" and ?ds = "drop 8 s"
  let ?yt = "take 4 t" and ?mt = "take 2 (drop 5 t)" and ?dt = "drop 8 t"
  have y: "(?ys < ?yt \<longleftrightarrow> number ?ys < number ?yt) \<and> (?ys = ?yt \<longleftrightarrow> number ?ys = number ?yt)"
    using S(3,4) T(3,4) by (intro number_order) simp_all
  have m: "(?ms < ?mt \<longleftrightarrow> number ?ms < number ?mt) \<and> (?ms = ?mt \<longleftrightarrow> number ?ms = number ?mt)"
    using S(5,6) T(5,6) by (intro number_order) simp_all
  have d: "(?ds < ?dt \<longleftrightarrow> number ?ds < number ?dt) \<and> (?ds = ?dt \<longleftrightarrow> number ?ds = number ?dt)"
    using S(7,8) T(7,8) by (intro number_order) simp_all
  have "s < t \<longleftrightarrow> ?ys @ CHR ''-'' # ?ms @ CHR ''-'' # ?ds < ?yt @ CHR ''-'' # ?mt @ CHR ''-'' # ?dt"
    using S(2) T(2) by simp
  also have "\<dots> \<longleftrightarrow> ?ys < ?yt \<or> ?ys = ?yt \<and> (?ms < ?mt \<or> ?ms = ?mt \<and> ?ds < ?dt)"
    using S(4,6) T(4,6) by (simp add: append_less_same_length)
  also have "\<dots> \<longleftrightarrow> ymd s < ymd t"
    using y m d by (auto simp: ymd_def less_prod_def)
  finally show ?thesis using S(1) T(1) by simp
qed

end
